theory Spec2Isabelle
  imports Main
begin

section \<open>The getent module: a shallow embedding\<close>

text \<open>
  The module under verification is \<^verbatim>\<open>plugins/modules/getent.py\<close>: a script that looks up
  the \<^verbatim>\<open>getent\<close> executable, runs it once, and turns its exit code and standard output
  into a result for the automation engine. The embedding follows the script line by line.
  Strings are Python 3 text; a \<^typ>\<open>char\<close> stands for a code point below 256.
\<close>

subsection \<open>Python values and dictionaries\<close>

text \<open>
  The result handed to the engine is a heterogeneous dictionary (booleans, strings, lists,
  nested dictionaries, \<^verbatim>\<open>None\<close>), so values are a datatype of their own. A dictionary is
  an association list in insertion order without repeated keys, as Python's \<^verbatim>\<open>dict\<close> is.
\<close>

datatype pyval =
    PNone
  | PBool bool
  | PStr string
  | PList "pyval list"
  | PDict "(pyval \<times> pyval) list"

type_synonym dict = "(pyval \<times> pyval) list"

datatype py_error = IndexError | ValueError | KeyError | TypeError

text \<open>\<^verbatim>\<open>d[k] = v\<close>: an existing key keeps its position and takes the new value, a new key
  is appended.\<close>

fun setitem :: "dict \<Rightarrow> pyval \<Rightarrow> pyval \<Rightarrow> dict" where
  "setitem [] k v = [(k, v)]"
| "setitem ((k', v') # d) k v =
     (if k' = k then (k, v) # d else (k', v') # setitem d k v)"

text \<open>\<^verbatim>\<open>d[k]\<close>: raises \<^verbatim>\<open>KeyError\<close> on a missing key.\<close>

definition getitem :: "dict \<Rightarrow> pyval \<Rightarrow> py_error + pyval" where
  "getitem d k = (case map_of d k of None \<Rightarrow> Inl KeyError | Some v \<Rightarrow> Inr v)"

text \<open>\<^verbatim>\<open>target[k] = v\<close> on a value already fetched: only a dictionary accepts it here.\<close>

fun store_item :: "pyval \<Rightarrow> pyval \<Rightarrow> pyval \<Rightarrow> py_error + pyval" where
  "store_item (PDict d) k v = Inr (PDict (setitem d k v))"
| "store_item PNone k v = Inl TypeError"
| "store_item (PBool b) k v = Inl TypeError"
| "store_item (PStr s) k v = Inl TypeError"
| "store_item (PList xs) k v = Inl TypeError"

text \<open>The Python value of an optional string parameter: \<^verbatim>\<open>None\<close> when it was not given.\<close>

fun pyopt :: "string option \<Rightarrow> pyval" where
  "pyopt None = PNone"
| "pyopt (Some s) = PStr s"

subsection \<open>String operations of the Python library\<close>

text \<open>\<^verbatim>\<open>str.isspace\<close> on one character, for code points below 256.\<close>

definition isspace :: "char \<Rightarrow> bool" where
  "isspace c \<longleftrightarrow>
     c \<in> set [CHR 0x09, CHR 0x0A, CHR 0x0B, CHR 0x0C, CHR 0x0D, CHR 0x1C, CHR 0x1D,
              CHR 0x1E, CHR 0x1F, CHR 0x20, CHR 0x85, CHR 0xA0]"

text \<open>The line boundaries of \<^verbatim>\<open>str.splitlines\<close>, for code points below 256
  (\<^verbatim>\<open>\r\n\<close> is handled by \<open>splitlines\<close> itself).\<close>

definition linebreak :: "char \<Rightarrow> bool" where
  "linebreak c \<longleftrightarrow>
     c \<in> set [CHR 0x0A, CHR 0x0B, CHR 0x0C, CHR 0x0D, CHR 0x1C, CHR 0x1D, CHR 0x1E, CHR 0x85]"

text \<open>
  \<^verbatim>\<open>out.splitlines()\<close>: the lines of a text without their terminators. \<open>cur\<close> is the line
  being read. A terminator ends the current line, also an empty one; text after the last
  terminator is a line only when it is not empty.
\<close>

fun splitlines_from :: "string \<Rightarrow> string \<Rightarrow> string list" where
  "splitlines_from cur [] = (if cur = [] then [] else [cur])"
| "splitlines_from cur [c] =
     (if linebreak c then [cur] else splitlines_from (cur @ [c]) [])"
| "splitlines_from cur (c # d # cs) =
     (if c = CHR 0x0D \<and> d = CHR 0x0A then cur # splitlines_from [] cs
      else if linebreak c then cur # splitlines_from [] (d # cs)
      else splitlines_from (cur @ [c]) (d # cs))"

definition splitlines :: "string \<Rightarrow> string list" where
  "splitlines s = splitlines_from [] s"

text \<open>
  \<^verbatim>\<open>line.split(sep)\<close> with a non-empty separator string: cut at each occurrence of \<open>sep\<close>,
  scanning from the left; empty fields are kept.
\<close>

fun split_sep :: "string \<Rightarrow> string \<Rightarrow> string \<Rightarrow> string list" where
  "split_sep sep cur [] = [cur]"
| "split_sep sep cur (c # cs) =
     (if sep \<noteq> [] \<and> take (length sep) (c # cs) = sep
      then cur # split_sep sep [] (drop (length sep) (c # cs))
      else split_sep sep (cur @ [c]) cs)"

text \<open>
  \<^verbatim>\<open>line.split(None)\<close>: fields are the maximal runs of non-whitespace characters; no
  empty field is produced, so a blank line gives the empty list.
\<close>

fun split_whitespace :: "string \<Rightarrow> string \<Rightarrow> string list" where
  "split_whitespace cur [] = (if cur = [] then [] else [cur])"
| "split_whitespace cur (c # cs) =
     (if isspace c then (if cur = [] then split_whitespace [] cs
                         else cur # split_whitespace [] cs)
      else split_whitespace (cur @ [c]) cs)"

text \<open>\<^verbatim>\<open>line.split(sep)\<close> as the script calls it: \<open>sep\<close> is \<^verbatim>\<open>None\<close> or a string, and the
  empty string raises \<^verbatim>\<open>ValueError\<close>.\<close>

definition str_split :: "string \<Rightarrow> string option \<Rightarrow> py_error + string list" where
  "str_split line sep =
     (case sep of
        None \<Rightarrow> Inr (split_whitespace [] line)
      | Some s \<Rightarrow> if s = [] then Inl ValueError else Inr (split_sep s [] line))"

text \<open>\<^verbatim>\<open>sep.join(fields)\<close>.\<close>

fun join :: "string \<Rightarrow> string list \<Rightarrow> string" where
  "join sep [] = []"
| "join sep [f] = f"
| "join sep (f # g # fs) = f @ sep @ join sep (g # fs)"

subsection \<open>The module's parameters, its environment and its outcomes\<close>

record params =
  database :: string
  key :: "string option"
  split :: "string option"
  fail_key :: bool

text \<open>
  What \<^verbatim>\<open>module.run_command(cmd)\<close> does: it raises an exception \<open>e\<close>, of which the script
  uses \<^verbatim>\<open>to_native(e)\<close> and \<^verbatim>\<open>traceback.format_exc()\<close>, or it returns the exit code,
  standard output and standard error of the child process.
\<close>

datatype run_result =
    Raised string string
  | Completed int string string

text \<open>
  The system the module runs on: where the search path resolves an executable name to,
  the search path as the framework prints it, and what running a command line does.
\<close>

record env =
  lookup_path :: "string \<Rightarrow> string option"
  paths :: string
  run_command :: "string list \<Rightarrow> run_result"

text \<open>
  How a run of the module ends. \<^verbatim>\<open>module.exit_json(**kwargs)\<close> and
  \<^verbatim>\<open>module.fail_json(**kwargs)\<close> report their keyword arguments and end the process, so
  nothing after them is executed; an exception that nothing catches ends it too.
\<close>

datatype outcome =
    exit_json dict
  | fail_json dict
  | uncaught py_error

text \<open>
  Modelled from the spec: \<^verbatim>\<open>AnsibleModule.get_bin_path(arg, True)\<close> belongs to the
  framework, not to this repository. With \<open>required\<close> set it returns the resolved path,
  or ends the run through \<^verbatim>\<open>fail_json\<close> with an executable-not-found message when the
  search path does not hold the executable.
\<close>

definition get_bin_path :: "env \<Rightarrow> string \<Rightarrow> outcome + string" where
  "get_bin_path e arg =
     (case lookup_path e arg of
        None \<Rightarrow> Inl (fail_json [(PStr ''msg'',
                 PStr (''Failed to find required executable '' @ arg @ '' in paths: '' @ paths e))])
      | Some p \<Rightarrow> Inr p)"

subsection \<open>The script\<close>

definition colon :: "string list" where
  "colon = [''passwd'', ''shadow'', ''group'', ''gshadow'']"

text \<open>Lines 118-119: the separator the parsing loop uses.\<close>

definition effective_split :: "string option \<Rightarrow> string \<Rightarrow> string option" where
  "effective_split sep db = (if sep = None \<and> db \<in> set colon then Some '':'' else sep)"

text \<open>
  Lines 131-133, the loop over \<^verbatim>\<open>out.splitlines()\<close>. Its body is
  \<^verbatim>\<open>record = line.split(split); results[dbtree][record[0]] = record[1:]\<close>: the inner
  dictionary is fetched from \<open>results\<close>, then \<^verbatim>\<open>record[0]\<close> is read (an empty record
  raises \<^verbatim>\<open>IndexError\<close>), then the entry is stored.
\<close>

fun parse_loop :: "string option \<Rightarrow> string \<Rightarrow> dict \<Rightarrow> string list \<Rightarrow> py_error + dict" where
  "parse_loop sep dbtree results [] = Inr results"
| "parse_loop sep dbtree results (line # lines) =
     (case str_split line sep of
        Inl e \<Rightarrow> Inl e
      | Inr record \<Rightarrow>
          (case getitem results (PStr dbtree) of
             Inl e \<Rightarrow> Inl e
           | Inr target \<Rightarrow>
               (case record of
                  [] \<Rightarrow> Inl IndexError
                | k # vs \<Rightarrow>
                    (case store_item target (PStr k) (PList (map PStr vs)) of
                       Inl e \<Rightarrow> Inl e
                     | Inr target' \<Rightarrow>
                         parse_loop sep dbtree (setitem results (PStr dbtree) target') lines))))"

text \<open>
  Lines 126-147: the exit code decides. \<open>sep\<close> is the separator after lines 118-119.
  The branches for exit codes 0 and 2 end the run themselves where they call
  \<^verbatim>\<open>exit_json\<close>; every other path reaches the script's last line,
  \<^verbatim>\<open>module.fail_json(msg=msg)\<close>, with the value \<open>msg\<close> has on that path.
\<close>

definition dispatch :: "params \<Rightarrow> string option \<Rightarrow> int \<Rightarrow> string \<Rightarrow> outcome" where
  "dispatch p sep rc out =
     (let msg = ''Unexpected failure!'';
          dbtree = ''getent_'' @ database p;
          results = setitem [(PStr ''collection'', PBool True)] (PStr dbtree) (PDict [])
      in
        if rc = 0 then
          (case parse_loop sep dbtree results (splitlines out) of
             Inl e \<Rightarrow> uncaught e
           | Inr results' \<Rightarrow> exit_json results')
        else if rc = 1 then
          fail_json [(PStr ''msg'', PStr ''Missing arguments, or database unknown.'')]
        else if rc = 2 then
          (let msg = ''One or more supplied key could not be found in the database.''
           in if \<not> fail_key p then
                (case getitem results (PStr dbtree) of
                   Inl e \<Rightarrow> uncaught e
                 | Inr target \<Rightarrow>
                     (case store_item target (pyopt (key p)) PNone of
                        Inl e \<Rightarrow> uncaught e
                      | Inr target' \<Rightarrow>
                          exit_json [(PStr ''results'',
                                       PDict (setitem results (PStr dbtree) target')),
                                     (PStr ''msg'', PStr msg)]))
              else fail_json [(PStr ''msg'', PStr msg)])
        else if rc = 3 then
          fail_json [(PStr ''msg'', PStr ''Enumeration not supported on this database.'')]
        else fail_json [(PStr ''msg'', PStr msg)])"

text \<open>The command line of lines 113-116.\<close>

definition command_line :: "string \<Rightarrow> params \<Rightarrow> string list" where
  "command_line getent_bin p =
     (case key p of
        Some k \<Rightarrow> [getent_bin, database p, k]
      | None \<Rightarrow> [getent_bin, database p])"

text \<open>
  Lines 106-124, then \<open>dispatch\<close>. The second component is the list of command lines
  handed to \<^verbatim>\<open>run_command\<close>, in order: it is empty when no child process was started.
\<close>

definition getent :: "env \<Rightarrow> params \<Rightarrow> outcome \<times> string list list" where
  "getent e p =
     (case get_bin_path e ''getent'' of
        Inl failure \<Rightarrow> (failure, [])
      | Inr getent_bin \<Rightarrow>
          (let cmd = command_line getent_bin p;
               sep = effective_split (split p) (database p)
           in (case run_command e cmd of
                 Raised text trace \<Rightarrow>
                   (fail_json [(PStr ''msg'', PStr text), (PStr ''exception'', PStr trace)], [cmd])
               | Completed rc out err \<Rightarrow> (dispatch p sep rc out, [cmd]))))"

subsection \<open>Auxiliary definitions for the statements\<close>

text \<open>The shape of \<open>results\<close> throughout the script: the marker and one inner dictionary.\<close>

definition results_of :: "string \<Rightarrow> dict \<Rightarrow> dict" where
  "results_of dbtree tree = [(PStr ''collection'', PBool True), (PStr dbtree, PDict tree)]"

text \<open>
  The loop of lines 131-133 as it acts on the inner dictionary \<^verbatim>\<open>results[dbtree]\<close>, the only
  part of \<open>results\<close> it changes; \<open>parse_loop_results\<close> below relates it to \<open>parse_loop\<close>.
\<close>

fun parse_tree :: "string option \<Rightarrow> dict \<Rightarrow> string list \<Rightarrow> py_error + dict" where
  "parse_tree sep tree [] = Inr tree"
| "parse_tree sep tree (line # lines) =
     (case str_split line sep of
        Inl e \<Rightarrow> Inl e
      | Inr [] \<Rightarrow> Inl IndexError
      | Inr (k # vs) \<Rightarrow> parse_tree sep (setitem tree (PStr k) (PList (map PStr vs))) lines)"

text \<open>The dictionary entry that one line contributes under the separator \<open>s\<close>.\<close>

definition entry :: "string \<Rightarrow> string \<Rightarrow> pyval \<times> pyval" where
  "entry s line =
     (PStr (hd (split_sep s [] line)), PList (map PStr (tl (split_sep s [] line))))"

text \<open>
  What makes a list of fields the result of cutting at each occurrence of \<open>s\<close>, found
  from the left: in a field followed by a separator, \<open>s\<close> starts nowhere before that
  separator, and the last field holds no \<open>s\<close> at all. Positions below \<open>n\<close> in the first
  field are left out (they belong to text read before).
\<close>

fun leftmost_cuts :: "string \<Rightarrow> nat \<Rightarrow> string list \<Rightarrow> bool" where
  "leftmost_cuts s n [] = False"
| "leftmost_cuts s n [f] = (\<forall>i. n \<le> i \<longrightarrow> take (length s) (drop i f) \<noteq> s)"
| "leftmost_cuts s n (f # g # fs) =
     ((\<forall>i. n \<le> i \<longrightarrow> i < length f \<longrightarrow> take (length s) (drop i (f @ s)) \<noteq> s) \<and>
      leftmost_cuts s 0 (g # fs))"

text \<open>A system for the examples: \<^verbatim>\<open>getent\<close> resolves to \<open>bin\<close> (or to nothing), and
  every command line run on it behaves as \<open>r\<close>.\<close>

definition example_system :: "string option \<Rightarrow> run_result \<Rightarrow> env" where
  "example_system bin r =
     \<lparr>lookup_path = (\<lambda>name. if name = ''getent'' then bin else None),
      paths = ''/usr/bin:/bin'',
      run_command = (\<lambda>cmd. r)\<rparr>"

section \<open>Properties\<close>

subsection \<open>From the script to the exit-code dispatch\<close>

lemma getent_found:
  assumes "lookup_path e ''getent'' = Some bin"
  shows "getent e p =
    (case run_command e (command_line bin p) of
       Raised text trace \<Rightarrow>
         fail_json [(PStr ''msg'', PStr text), (PStr ''exception'', PStr trace)]
     | Completed rc out err \<Rightarrow> dispatch p (effective_split (split p) (database p)) rc out,
     [command_line bin p])"
  using assms by (simp add: getent_def get_bin_path_def Let_def split: run_result.split)

lemma getent_completed:
  assumes "lookup_path e ''getent'' = Some bin"
    and "run_command e (command_line bin p) = Completed rc out err"
  shows "getent e p =
    (dispatch p (effective_split (split p) (database p)) rc out, [command_line bin p])"
  using assms by (simp add: getent_found)

lemma command_line_fail_key [simp]:
  "command_line bin (p\<lparr>fail_key := b\<rparr>) = command_line bin p"
  by (simp add: command_line_def split: option.split)

lemma dispatch_fixed:
  assumes "rc \<noteq> 0" and "rc \<noteq> 2"
  shows "dispatch p sep rc out =
    fail_json [(PStr ''msg'',
      PStr (if rc = 1 then ''Missing arguments, or database unknown.''
            else if rc = 3 then ''Enumeration not supported on this database.''
            else ''Unexpected failure!''))]"
  using assms by (simp add: dispatch_def Let_def)

lemma dispatch_missing_key:
  "dispatch p sep 2 out =
    (if fail_key p
     then fail_json [(PStr ''msg'',
            PStr ''One or more supplied key could not be found in the database.'')]
     else exit_json
        [(PStr ''results'', PDict (results_of (''getent_'' @ database p) [(pyopt (key p), PNone)])),
         (PStr ''msg'', PStr ''One or more supplied key could not be found in the database.'')])"
  by (simp add: dispatch_def Let_def results_of_def getitem_def)

lemma dispatch_empty_out:
  "dispatch p sep 0 [] = exit_json (results_of (''getent_'' @ database p) [])"
  by (simp add: dispatch_def Let_def results_of_def splitlines_def)

subsection \<open>Dictionaries\<close>

lemma map_of_setitem: "map_of (setitem d k v) = (map_of d)(k \<mapsto> v)"
  by (induction d k v rule: setitem.induct) (auto simp: fun_eq_iff)

lemma keys_setitem:
  "map fst (setitem d k v) = (if k \<in> fst ` set d then map fst d else map fst d @ [k])"
  by (induction d k v rule: setitem.induct) auto

lemma distinct_setitem: "distinct (map fst d) \<Longrightarrow> distinct (map fst (setitem d k v))"
  by (simp add: keys_setitem)

lemma setitem_fresh: "k \<notin> fst ` set d \<Longrightarrow> setitem d k v = d @ [(k, v)]"
  by (induction d k v rule: setitem.induct) auto

lemma keys_kept_setitem: "fst ` set d \<subseteq> fst ` set (setitem d k v)"
  by (induction d k v rule: setitem.induct) auto

lemma key_in_setitem: "k \<in> fst ` set (setitem d k v)"
  by (induction d k v rule: setitem.induct) auto

lemma set_setitem: "set (setitem d k v) \<subseteq> insert (k, v) (set d)"
  by (induction d k v rule: setitem.induct) auto

lemma only_entry:
  "distinct (map fst d) \<Longrightarrow> map_of d k = Some v \<Longrightarrow> [kv \<leftarrow> d. fst kv = k] = [(k, v)]"
proof (induction d)
  case Nil
  then show ?case by simp
next
  case (Cons a d)
  show ?case
  proof (cases "fst a = k")
    case True
    with Cons.prems have "k \<notin> fst ` set d" and "a = (k, v)" by (auto simp: prod_eq_iff)
    then have "[kv \<leftarrow> d. fst kv = k] = []" by (auto simp: filter_empty_conv)
    with True \<open>a = (k, v)\<close> show ?thesis by simp
  next
    case False
    with Cons show ?thesis by (cases a) auto
  qed
qed

subsection \<open>The parsing loop on the inner dictionary\<close>

lemma parse_loop_results:
  assumes "dbtree \<noteq> ''collection''"
  shows "parse_loop sep dbtree (results_of dbtree tree) lines =
    (case parse_tree sep tree lines of Inl e \<Rightarrow> Inl e | Inr t \<Rightarrow> Inr (results_of dbtree t))"
proof (induction lines arbitrary: tree)
  case Nil
  show ?case by simp
next
  case (Cons line lines)
  have get: "getitem (results_of dbtree tree) (PStr dbtree) = Inr (PDict tree)"
    using assms by (simp add: results_of_def getitem_def)
  have set: "\<And>t. setitem (results_of dbtree tree) (PStr dbtree) (PDict t) = results_of dbtree t"
    using assms by (simp add: results_of_def)
  show ?case
    by (simp add: get set Cons.IH split: sum.split list.split)
qed

lemma parse_tree_append:
  "parse_tree sep tree (xs @ ys) =
     (case parse_tree sep tree xs of Inl e \<Rightarrow> Inl e | Inr t \<Rightarrow> parse_tree sep t ys)"
  by (induction xs arbitrary: tree) (auto split: sum.split list.split)

lemma parse_tree_total:
  "\<forall>line \<in> set lines. \<exists>k vs. str_split line sep = Inr (k # vs) \<Longrightarrow>
     \<exists>t. parse_tree sep tree lines = Inr t"
  by (induction lines arbitrary: tree) auto

lemma parse_tree_distinct:
  "parse_tree sep tree lines = Inr t \<Longrightarrow> distinct (map fst tree) \<Longrightarrow> distinct (map fst t)"
  by (induction lines arbitrary: tree)
    (auto split: sum.splits list.splits intro: distinct_setitem)

lemma parse_tree_untouched:
  "parse_tree sep tree lines = Inr t \<Longrightarrow>
   \<forall>line \<in> set lines. \<forall>k' vs'. str_split line sep = Inr (k' # vs') \<longrightarrow> k' \<noteq> k \<Longrightarrow>
   map_of t (PStr k) = map_of tree (PStr k)"
  by (induction lines arbitrary: tree)
    (auto split: sum.splits list.splits simp: map_of_setitem)

lemma parse_tree_last_wins:
  assumes "parse_tree sep tree (pre @ l # post) = Inr t"
    and "str_split l sep = Inr (k # vs)"
    and "\<forall>line \<in> set post. \<forall>k' vs'. str_split line sep = Inr (k' # vs') \<longrightarrow> k' \<noteq> k"
  shows "map_of t (PStr k) = Some (PList (map PStr vs))"
proof -
  from assms(1) obtain t1 where t1: "parse_tree sep tree pre = Inr t1"
    and rest: "parse_tree sep t1 (l # post) = Inr t"
    by (auto simp: parse_tree_append split: sum.splits)
  from rest assms(2)
  have "parse_tree sep (setitem t1 (PStr k) (PList (map PStr vs))) post = Inr t"
    by simp
  from parse_tree_untouched [OF this assms(3)]
  show ?thesis by (simp add: map_of_setitem)
qed

lemma parse_tree_keys_kept:
  "parse_tree sep tree lines = Inr t \<Longrightarrow> fst ` set tree \<subseteq> fst ` set t"
proof (induction lines arbitrary: tree)
  case Nil
  then show ?case by simp
next
  case (Cons line lines)
  then obtain k vs where r: "str_split line sep = Inr (k # vs)"
    and rest: "parse_tree sep (setitem tree (PStr k) (PList (map PStr vs))) lines = Inr t"
    by (auto split: sum.splits list.splits)
  have "fst ` set tree \<subseteq> fst ` set (setitem tree (PStr k) (PList (map PStr vs)))"
    by (rule keys_kept_setitem)
  with Cons.IH [OF rest] show ?case by blast
qed

lemma parse_tree_keys:
  "parse_tree sep tree lines = Inr t \<Longrightarrow> line \<in> set lines \<Longrightarrow>
     \<exists>k vs. str_split line sep = Inr (k # vs) \<and> PStr k \<in> fst ` set t"
proof (induction lines arbitrary: tree)
  case Nil
  then show ?case by simp
next
  case (Cons a lines)
  from Cons.prems(1) obtain k vs where r: "str_split a sep = Inr (k # vs)"
    and rest: "parse_tree sep (setitem tree (PStr k) (PList (map PStr vs))) lines = Inr t"
    by (auto split: sum.splits list.splits)
  show ?case
  proof (cases "line = a")
    case True
    have "PStr k \<in> fst ` set (setitem tree (PStr k) (PList (map PStr vs)))"
      by (rule key_in_setitem)
    with parse_tree_keys_kept [OF rest] r True show ?thesis by blast
  next
    case False
    with Cons.prems(2) have "line \<in> set lines" by simp
    from Cons.IH [OF rest this] show ?thesis .
  qed
qed

lemma parse_tree_entries:
  "parse_tree sep tree lines = Inr t \<Longrightarrow> (k, v) \<in> set t \<Longrightarrow>
     (k, v) \<in> set tree \<or>
     (\<exists>line \<in> set lines. \<exists>ks vs. str_split line sep = Inr (ks # vs) \<and>
        k = PStr ks \<and> v = PList (map PStr vs))"
proof (induction lines arbitrary: tree)
  case Nil
  then show ?case by simp
next
  case (Cons a lines)
  from Cons.prems(1) obtain ks vs where r: "str_split a sep = Inr (ks # vs)"
    and rest: "parse_tree sep (setitem tree (PStr ks) (PList (map PStr vs))) lines = Inr t"
    by (auto split: sum.splits list.splits)
  from Cons.IH [OF rest Cons.prems(2)]
  show ?case
  proof
    assume "(k, v) \<in> set (setitem tree (PStr ks) (PList (map PStr vs)))"
    with set_setitem [of tree "PStr ks" "PList (map PStr vs)"]
    have "(k, v) = (PStr ks, PList (map PStr vs)) \<or> (k, v) \<in> set tree" by blast
    with r show ?thesis by auto
  next
    assume "\<exists>line \<in> set lines. \<exists>ks vs. str_split line sep = Inr (ks # vs) \<and>
        k = PStr ks \<and> v = PList (map PStr vs)"
    then show ?thesis by auto
  qed
qed

subsection \<open>Splitting lines and text\<close>

lemma split_sep_nonempty: "split_sep s cur line \<noteq> []"
  by (induction s cur line rule: split_sep.induct) auto

lemma join_Cons: "fs \<noteq> [] \<Longrightarrow> join s (f # fs) = f @ s @ join s fs"
  by (cases fs) auto

lemma join_split_sep: "s \<noteq> [] \<Longrightarrow> join s (split_sep s cur line) = cur @ line"
proof (induction s cur line rule: split_sep.induct)
  case (1 sep cur)
  show ?case by simp
next
  case (2 sep cur c cs)
  show ?case
  proof (cases "take (length sep) (c # cs) = sep")
    case True
    have "join sep (cur # split_sep sep [] (drop (length sep) (c # cs))) =
          cur @ sep @ join sep (split_sep sep [] (drop (length sep) (c # cs)))"
      by (rule join_Cons) (rule split_sep_nonempty)
    also have "\<dots> = cur @ sep @ drop (length sep) (c # cs)"
      using 2 True by simp
    also have "sep @ drop (length sep) (c # cs) = c # cs"
      using append_take_drop_id [of "length sep" "c # cs"] True by simp
    finally show ?thesis using 2 True by simp
  next
    case False
    with 2 show ?thesis by simp
  qed
qed

lemma take_within: "n \<le> length xs \<Longrightarrow> take n (xs @ ys) = take n xs"
  by simp

lemma split_sep_first_length: "length cur \<le> length (hd (split_sep s cur line))"
  by (induction s cur line rule: split_sep.induct) (auto split: if_splits)

lemma leftmost_cuts_weaken:
  assumes "leftmost_cuts s (Suc n) fs"
    and "fs = [f] \<Longrightarrow> take (length s) (drop n f) \<noteq> s"
    and "\<And>g gs. fs = f # g # gs \<Longrightarrow> take (length s) (drop n (f @ s)) \<noteq> s"
    and "hd fs = f"
  shows "leftmost_cuts s n fs"
proof -
  have step: "i = n \<or> Suc n \<le> i" if "n \<le> i" for i
    using that by arith
  show ?thesis
  proof (cases fs)
    case Nil
    with assms show ?thesis by simp
  next
    case (Cons f' fs')
    with assms(4) have f': "f' = f" by simp
    show ?thesis
    proof (cases fs')
      case Nil
      with Cons f' have fs: "fs = [f]" by simp
      with assms(1) have above: "\<forall>i. Suc n \<le> i \<longrightarrow> take (length s) (drop i f) \<noteq> s"
        by simp
      from assms(2) fs have at: "take (length s) (drop n f) \<noteq> s" by simp
      have "\<forall>i. n \<le> i \<longrightarrow> take (length s) (drop i f) \<noteq> s"
        using above at step by blast
      with fs show ?thesis by simp
    next
      case (Cons g gs)
      with \<open>fs = f' # fs'\<close> f' have fs: "fs = f # g # gs" by simp
      with assms(1) have above: "\<forall>i. Suc n \<le> i \<longrightarrow> i < length f \<longrightarrow>
          take (length s) (drop i (f @ s)) \<noteq> s"
        and rest: "leftmost_cuts s 0 (g # gs)"
        by simp_all
      from assms(3) fs have at: "take (length s) (drop n (f @ s)) \<noteq> s" by simp
      have "\<forall>i. n \<le> i \<longrightarrow> i < length f \<longrightarrow> take (length s) (drop i (f @ s)) \<noteq> s"
        using above at step by blast
      with fs rest show ?thesis by simp
    qed
  qed
qed

lemma split_sep_leftmost:
  "s \<noteq> [] \<Longrightarrow> leftmost_cuts s (length cur) (split_sep s cur line)"
proof (induction s cur line rule: split_sep.induct)
  case (1 sep cur)
  then show ?case by simp
next
  case (2 sep cur c cs)
  show ?case
  proof (cases "take (length sep) (c # cs) = sep")
    case True
    obtain g gs where rest: "split_sep sep [] (drop (length sep) (c # cs)) = g # gs"
      using split_sep_nonempty [of sep "[]" "drop (length sep) (c # cs)"]
      by (cases "split_sep sep [] (drop (length sep) (c # cs))") auto
    from 2 True have "leftmost_cuts sep 0 (split_sep sep [] (drop (length sep) (c # cs)))"
      by simp
    with True 2 rest show ?thesis by simp
  next
    case False
    let ?fs = "split_sep sep (cur @ [c]) cs"
    from False 2 have ih: "leftmost_cuts sep (Suc (length cur)) ?fs" by simp
    have whole: "join sep ?fs = cur @ c # cs"
      using join_split_sep [OF 2(3), of "cur @ [c]" cs] by simp
    obtain f fs where fs: "?fs = f # fs"
      using split_sep_nonempty [of sep "cur @ [c]" cs] by (cases ?fs) auto
    have len: "Suc (length cur) \<le> length f"
      using split_sep_first_length [of "cur @ [c]" sep cs] fs by simp
    have "leftmost_cuts sep (length cur) ?fs"
    proof (rule leftmost_cuts_weaken [OF ih, of f])
      assume "?fs = [f]"
      with whole have "f = cur @ c # cs" by simp
      with False show "take (length sep) (drop (length cur) f) \<noteq> sep" by simp
    next
      fix g gs assume "?fs = f # g # gs"
      with whole have eq: "f @ sep @ join sep (g # gs) = cur @ c # cs" by simp
      define m where "m = length f - Suc (length cur)"
      from len have "length f = length cur + Suc m" by (simp add: m_def)
      moreover from eq have "take (length f) (cur @ c # cs) = f"
        by (metis append_eq_conv_conj)
      ultimately have f: "f = cur @ c # take m cs" by simp
      have "take (length sep) (c # cs) =
          take (length sep) ((c # take m cs @ sep) @ join sep (g # gs))"
        using eq f by simp
      also have "\<dots> = take (length sep) (c # take m cs @ sep)"
        by (rule take_within) simp
      also have "\<dots> = take (length sep) (drop (length cur) (f @ sep))"
        using f by simp
      finally show "take (length sep) (drop (length cur) (f @ sep)) \<noteq> sep"
        using False by simp
    next
      show "hd ?fs = f" using fs by simp
    qed
    with False show ?thesis by simp
  qed
qed

lemma leftmost_cuts_fields:
  "leftmost_cuts s 0 fs \<Longrightarrow>
     (\<forall>f \<in> set (butlast fs). \<forall>i < length f. take (length s) (drop i (f @ s)) \<noteq> s) \<and>
     (\<forall>i. take (length s) (drop i (last fs)) \<noteq> s)"
proof (induction fs)
  case Nil
  then show ?case by simp
next
  case (Cons f fs)
  show ?case
  proof (cases fs)
    case Nil
    with Cons.prems show ?thesis by simp
  next
    case (Cons g gs)
    with Cons.prems Cons.IH show ?thesis by simp
  qed
qed

lemma split_sep_char:
  "c \<notin> set cur \<Longrightarrow> \<forall>f \<in> set (split_sep [c] cur line). c \<notin> set f"
proof (induction line arbitrary: cur)
  case Nil
  then show ?case by simp
next
  case (Cons x xs)
  show ?case
  proof (cases "x = c")
    case True
    with Cons.IH [of "[]"] Cons.prems show ?thesis by simp
  next
    case False
    with Cons.IH [of "cur @ [x]"] Cons.prems show ?thesis by simp
  qed
qed

lemma split_sep_cuts:
  assumes "s \<noteq> []"
  shows "(\<forall>f \<in> set (butlast (split_sep s [] line)). \<forall>i < length f.
            take (length s) (drop i (f @ s)) \<noteq> s) \<and>
         (\<forall>i. take (length s) (drop i (last (split_sep s [] line))) \<noteq> s) \<and>
         (\<forall>c. s = [c] \<longrightarrow> (\<forall>f \<in> set (split_sep s [] line). c \<notin> set f))"
proof -
  have "leftmost_cuts s 0 (split_sep s [] line)"
    using split_sep_leftmost [OF assms, of "[]" line] by simp
  from leftmost_cuts_fields [OF this] split_sep_char [of _ "[]" line]
  show ?thesis by auto
qed

lemma splitlines_from_trailing:
  "body \<noteq> [] \<Longrightarrow> \<not> linebreak (last body) \<Longrightarrow>
     splitlines_from cur (body @ [CHR 0x0A]) = splitlines_from cur body"
proof (induction cur body rule: splitlines_from.induct)
  case (1 cur)
  then show ?case by simp
next
  case (2 cur c)
  then show ?case by (simp add: linebreak_def)
next
  case (3 cur c d cs)
  then show ?case by (cases cs) (auto simp: linebreak_def)
qed

lemma splitlines_from_line:
  "\<forall>c \<in> set l. \<not> linebreak c \<Longrightarrow>
     splitlines_from cur (l @ CHR 0x0A # rest) = (cur @ l) # splitlines_from [] rest"
proof (induction l arbitrary: cur)
  case Nil
  show ?case by (cases rest) (simp_all add: linebreak_def)
next
  case (Cons c l)
  obtain d cs where shape: "l @ CHR 0x0A # rest = d # cs"
    by (cases l) auto
  from Cons.prems have c: "\<not> linebreak c" and l: "\<forall>c \<in> set l. \<not> linebreak c"
    by simp_all
  from c have "c \<noteq> CHR 0x0D" by (auto simp: linebreak_def)
  with c have "splitlines_from cur (c # d # cs) = splitlines_from (cur @ [c]) (d # cs)"
    by simp
  with Cons.IH [OF l, of "cur @ [c]"] shape show ?case by simp
qed

lemma splitlines_terminated:
  "\<forall>l \<in> set ls. \<forall>c \<in> set l. \<not> linebreak c \<Longrightarrow>
     splitlines (concat (map (\<lambda>l. l @ [CHR 0x0A]) ls)) = ls"
proof (induction ls)
  case Nil
  show ?case by (simp add: splitlines_def)
next
  case (Cons l ls)
  then have "splitlines_from [] (l @ CHR 0x0A # concat (map (\<lambda>l. l @ [CHR 0x0A]) ls)) =
      l # splitlines_from [] (concat (map (\<lambda>l. l @ [CHR 0x0A]) ls))"
    using splitlines_from_line [of l "[]"] by simp
  with Cons show ?case by (simp add: splitlines_def)
qed

lemma str_split_Some:
  "s \<noteq> [] \<Longrightarrow> str_split line (Some s) = Inr (split_sep s [] line)"
  by (simp add: str_split_def)

lemma str_split_Some_record:
  "s \<noteq> [] \<Longrightarrow> \<exists>k vs. str_split line (Some s) = Inr (k # vs)"
  using split_sep_nonempty [of s "[]" line] by (cases "split_sep s [] line") (auto simp: str_split_def)

lemma parse_tree_distinct_keys:
  assumes "s \<noteq> []"
  shows "distinct (map (\<lambda>line. hd (split_sep s [] line)) lines) \<Longrightarrow>
     \<forall>line \<in> set lines. PStr (hd (split_sep s [] line)) \<notin> fst ` set tree \<Longrightarrow>
     parse_tree (Some s) tree lines = Inr (tree @ map (entry s) lines)"
proof (induction lines arbitrary: tree)
  case Nil
  show ?case by simp
next
  case (Cons a lines)
  obtain k vs where kv: "split_sep s [] a = k # vs"
    using split_sep_nonempty [of s "[]" a] by (cases "split_sep s [] a") auto
  from Cons.prems(2) kv have fresh: "PStr k \<notin> fst ` set tree" by simp
  have step: "setitem tree (PStr k) (PList (map PStr vs)) = tree @ [entry s a]"
    using fresh kv by (simp add: setitem_fresh entry_def)
  have "\<forall>line \<in> set lines. PStr (hd (split_sep s [] line)) \<notin> fst ` set (tree @ [entry s a])"
    using Cons.prems kv by (auto simp: entry_def)
  with Cons.IH [of "tree @ [entry s a]"] Cons.prems(1)
  have "parse_tree (Some s) (tree @ [entry s a]) lines = Inr ((tree @ [entry s a]) @ map (entry s) lines)"
    by simp
  then show ?case
    using assms kv step by (simp add: str_split_Some)
qed

subsection \<open>Exit code 0: from the dispatch to the loop\<close>

lemma dispatch_success:
  "dispatch p sep 0 out =
     (case parse_tree sep [] (splitlines out) of
        Inl e \<Rightarrow> uncaught e
      | Inr t \<Rightarrow> exit_json (results_of (''getent_'' @ database p) t))"
proof -
  have lit: "setitem [(PStr ''collection'', PBool True)] (PStr (''getent_'' @ database p)) (PDict [])
      = results_of (''getent_'' @ database p) []"
    by (simp add: results_of_def)
  have ne: "''getent_'' @ database p \<noteq> ''collection''" by simp
  show ?thesis
    unfolding dispatch_def Let_def lit parse_loop_results [OF ne]
    by (simp split: sum.split)
qed

lemma getent_success:
  assumes "lookup_path e ''getent'' = Some bin"
    and "run_command e (command_line bin p) = Completed 0 out err"
    and "parse_tree (effective_split (split p) (database p)) [] (splitlines out) = Inr t"
  shows "getent e p =
    (exit_json [(PStr ''collection'', PBool True), (PStr (''getent_'' @ database p), PDict t)],
     [command_line bin p])"
  using assms by (simp add: getent_completed dispatch_success results_of_def)

lemma splitlines_trailing:
  "body \<noteq> [] \<Longrightarrow> \<not> linebreak (last body) \<Longrightarrow> splitlines (body @ [CHR 0x0A]) = splitlines body"
  by (simp add: splitlines_def splitlines_from_trailing)


subsection \<open>Exit code 2\<close>

text \<open>
  Claim C1. When \<^verbatim>\<open>getent\<close> exits with code 2 and \<open>fail_key\<close> is false, the run does not
  fail: it ends in \<^verbatim>\<open>exit_json\<close>, the dictionary under \<^verbatim>\<open>getent_<database>\<close> maps the
  queried key to \<^verbatim>\<open>None\<close>, and the result carries a non-empty \<^verbatim>\<open>msg\<close>.
\<close>

theorem missing_key_tolerated:
  assumes "lookup_path e ''getent'' = Some bin"
    and "run_command e (command_line bin p) = Completed 2 out err"
    and "\<not> fail_key p"
  shows "let msg = ''One or more supplied key could not be found in the database.'' in
         msg \<noteq> [] \<and>
         getent e p =
          (exit_json
            [(PStr ''results'',
              PDict [(PStr ''collection'', PBool True),
                     (PStr (''getent_'' @ database p), PDict [(pyopt (key p), PNone)])]),
             (PStr ''msg'', PStr msg)],
           [command_line bin p])"
  using assms by (simp add: getent_completed dispatch_missing_key results_of_def)

theorem missing_key_tolerated_witness:
  "getent (example_system (Some ''/usr/bin/getent'') (Completed 2 [] []))
          \<lparr>database = ''services'', key = Some ''http'', split = None, fail_key = False\<rparr> =
     (exit_json
        [(PStr ''results'',
          PDict [(PStr ''collection'', PBool True),
                 (PStr ''getent_services'', PDict [(PStr ''http'', PNone)])]),
         (PStr ''msg'', PStr ''One or more supplied key could not be found in the database.'')],
      [[''/usr/bin/getent'', ''services'', ''http'']])"
  using missing_key_tolerated
    [of "example_system (Some ''/usr/bin/getent'') (Completed 2 [] [])" "''/usr/bin/getent''"
      "\<lparr>database = ''services'', key = Some ''http'', split = None, fail_key = False\<rparr>"
      "[]" "[]"]
  by (simp add: example_system_def command_line_def)

text \<open>
  Claim C2. When \<^verbatim>\<open>getent\<close> exits with code 2 and \<open>fail_key\<close> is true, the run ends in
  \<^verbatim>\<open>fail_json\<close> with exactly the message
  "One or more supplied key could not be found in the database.".
\<close>

theorem missing_key_fatal:
  assumes "lookup_path e ''getent'' = Some bin"
    and "run_command e (command_line bin p) = Completed 2 out err"
    and "fail_key p"
  shows "getent e p =
    (fail_json [(PStr ''msg'',
        PStr ''One or more supplied key could not be found in the database.'')],
     [command_line bin p])"
  using assms by (simp add: getent_completed dispatch_missing_key)

theorem missing_key_fatal_witness:
  "getent (example_system (Some ''/usr/bin/getent'') (Completed 2 [] []))
          \<lparr>database = ''passwd'', key = Some ''nobody'', split = None, fail_key = True\<rparr> =
     (fail_json [(PStr ''msg'',
         PStr ''One or more supplied key could not be found in the database.'')],
      [[''/usr/bin/getent'', ''passwd'', ''nobody'']])"
  using missing_key_fatal
    [of "example_system (Some ''/usr/bin/getent'') (Completed 2 [] [])" "''/usr/bin/getent''"
      "\<lparr>database = ''passwd'', key = Some ''nobody'', split = None, fail_key = True\<rparr>"
      "[]" "[]"]
  by (simp add: example_system_def command_line_def)

subsection \<open>Exit codes 1, 3 and the unexpected ones\<close>

text \<open>
  Claim C3. Exit code 1 fails with exactly "Missing arguments, or database unknown.",
  exit code 3 with exactly "Enumeration not supported on this database.", and every exit
  code other than 0, 1, 2 and 3 with exactly "Unexpected failure!"; whatever value the
  \<open>fail_key\<close> flag has.
\<close>

theorem fixed_failure_messages:
  assumes "lookup_path e ''getent'' = Some bin"
    and "run_command e (command_line bin p) = Completed rc out err"
    and "rc \<noteq> 0" and "rc \<noteq> 2"
  shows "\<forall>b. getent e (p\<lparr>fail_key := b\<rparr>) =
    (fail_json [(PStr ''msg'',
        PStr (if rc = 1 then ''Missing arguments, or database unknown.''
              else if rc = 3 then ''Enumeration not supported on this database.''
              else ''Unexpected failure!''))],
     [command_line bin p])"
  using assms by (simp add: getent_completed dispatch_fixed)

theorem fixed_failure_messages_witness:
  "(\<forall>b. getent (example_system (Some ''/usr/bin/getent'') (Completed 1 [] []))
          \<lparr>database = ''nosuchdb'', key = None, split = None, fail_key = b\<rparr> =
     (fail_json [(PStr ''msg'', PStr ''Missing arguments, or database unknown.'')],
      [[''/usr/bin/getent'', ''nosuchdb'']])) \<and>
   (\<forall>b. getent (example_system (Some ''/usr/bin/getent'') (Completed 3 [] []))
          \<lparr>database = ''nosuchdb'', key = None, split = None, fail_key = b\<rparr> =
     (fail_json [(PStr ''msg'', PStr ''Enumeration not supported on this database.'')],
      [[''/usr/bin/getent'', ''nosuchdb'']])) \<and>
   (\<forall>b. getent (example_system (Some ''/usr/bin/getent'') (Completed (- 9) [] []))
          \<lparr>database = ''nosuchdb'', key = None, split = None, fail_key = b\<rparr> =
     (fail_json [(PStr ''msg'', PStr ''Unexpected failure!'')],
      [[''/usr/bin/getent'', ''nosuchdb'']]))"
  using
    fixed_failure_messages
      [of "example_system (Some ''/usr/bin/getent'') (Completed 1 [] [])" "''/usr/bin/getent''"
        "\<lparr>database = ''nosuchdb'', key = None, split = None, fail_key = True\<rparr>" 1 "[]" "[]"]
    fixed_failure_messages
      [of "example_system (Some ''/usr/bin/getent'') (Completed 3 [] [])" "''/usr/bin/getent''"
        "\<lparr>database = ''nosuchdb'', key = None, split = None, fail_key = True\<rparr>" 3 "[]" "[]"]
    fixed_failure_messages
      [of "example_system (Some ''/usr/bin/getent'') (Completed (- 9) [] [])" "''/usr/bin/getent''"
        "\<lparr>database = ''nosuchdb'', key = None, split = None, fail_key = True\<rparr>" "- 9" "[]" "[]"]
  by (simp add: example_system_def command_line_def)

subsection \<open>Failures before the exit code is known\<close>

text \<open>
  Claim C6. When the search path does not resolve \<^verbatim>\<open>getent\<close>, the run ends in the
  framework's executable-not-found failure, and no command line has been handed to
  \<^verbatim>\<open>run_command\<close>: no child process was started.
\<close>

theorem missing_executable:
  assumes "lookup_path e ''getent'' = None"
  shows "getent e p =
    (fail_json [(PStr ''msg'',
        PStr (''Failed to find required executable getent in paths: '' @ paths e))],
     [])"
  using assms by (simp add: getent_def get_bin_path_def)

theorem missing_executable_witness:
  "getent (example_system None (Completed 0 ''root:x'' []))
          \<lparr>database = ''passwd'', key = Some ''root'', split = None, fail_key = True\<rparr> =
     (fail_json [(PStr ''msg'',
         PStr ''Failed to find required executable getent in paths: /usr/bin:/bin'')],
      [])"
  using missing_executable
    [of "example_system None (Completed 0 ''root:x'' [])"
      "\<lparr>database = ''passwd'', key = Some ''root'', split = None, fail_key = True\<rparr>"]
  by (simp add: example_system_def)

text \<open>
  Claim C8. When \<^verbatim>\<open>run_command\<close> raises, the run ends in \<^verbatim>\<open>fail_json\<close>: its \<^verbatim>\<open>msg\<close> is the
  text of the exception, its \<^verbatim>\<open>exception\<close> field is the traceback text, and it holds no
  result set.
\<close>

theorem spawn_failure:
  assumes "lookup_path e ''getent'' = Some bin"
    and "run_command e (command_line bin p) = Raised text trace"
  shows "getent e p =
    (fail_json [(PStr ''msg'', PStr text), (PStr ''exception'', PStr trace)],
     [command_line bin p])"
  using assms by (simp add: getent_found)

theorem spawn_failure_witness:
  "getent (example_system (Some ''/usr/bin/getent'')
             (Raised ''[Errno 13] Permission denied'' ''Traceback (most recent call last): ...''))
          \<lparr>database = ''passwd'', key = None, split = None, fail_key = True\<rparr> =
     (fail_json [(PStr ''msg'', PStr ''[Errno 13] Permission denied''),
                 (PStr ''exception'', PStr ''Traceback (most recent call last): ...'')],
      [[''/usr/bin/getent'', ''passwd'']])"
  using spawn_failure
    [of "example_system (Some ''/usr/bin/getent'')
           (Raised ''[Errno 13] Permission denied'' ''Traceback (most recent call last): ...'')"
      "''/usr/bin/getent''"
      "\<lparr>database = ''passwd'', key = None, split = None, fail_key = True\<rparr>"
      "''[Errno 13] Permission denied''" "''Traceback (most recent call last): ...''"]
  by (simp add: example_system_def command_line_def)

subsection \<open>Exit code 0\<close>

text \<open>
  Claim C10. When \<^verbatim>\<open>getent\<close> exits with code 0 and its standard output is empty, the run
  succeeds and \<^verbatim>\<open>getent_<database>\<close> is the empty dictionary: no failure and no entry for
  the queried key, whether a key was supplied or not.
\<close>

theorem empty_output:
  assumes "lookup_path e ''getent'' = Some bin"
    and "run_command e (command_line bin p) = Completed 0 [] err"
  shows "getent e p =
    (exit_json [(PStr ''collection'', PBool True),
                (PStr (''getent_'' @ database p), PDict [])],
     [command_line bin p])"
  using assms by (simp add: getent_completed dispatch_empty_out results_of_def)

theorem empty_output_witness:
  "getent (example_system (Some ''/usr/bin/getent'') (Completed 0 [] []))
          \<lparr>database = ''services'', key = Some ''http'', split = None, fail_key = True\<rparr> =
     (exit_json [(PStr ''collection'', PBool True), (PStr ''getent_services'', PDict [])],
      [[''/usr/bin/getent'', ''services'', ''http'']])"
  using empty_output
    [of "example_system (Some ''/usr/bin/getent'') (Completed 0 [] [])" "''/usr/bin/getent''"
      "\<lparr>database = ''services'', key = Some ''http'', split = None, fail_key = True\<rparr>" "[]"]
  by (simp add: example_system_def command_line_def)

text \<open>
  Claim C7. On exit code 0, what the run returns holds the marker \<^verbatim>\<open>collection: true\<close> and
  a field \<^verbatim>\<open>getent_<database>\<close> with the parsed dictionary: every line's first field is one
  of its keys and every entry comes from a line; the run returns whenever every line
  splits into a non-empty record. On exit code 2 with \<open>fail_key\<close> false, what is returned
  is a \<^verbatim>\<open>results\<close> field wrapping that same structure, and a \<^verbatim>\<open>msg\<close> field beside it.
\<close>

theorem result_shape:
  assumes "lookup_path e ''getent'' = Some bin"
    and "run_command e (command_line bin p) = Completed rc out err"
  shows "(rc = 0 \<longrightarrow>
           (\<forall>payload. fst (getent e p) = exit_json payload \<longrightarrow>
              (\<exists>tree. payload = [(PStr ''collection'', PBool True),
                                  (PStr (''getent_'' @ database p), PDict tree)] \<and>
                 (\<forall>line \<in> set (splitlines out). \<exists>k vs.
                    str_split line (effective_split (split p) (database p)) = Inr (k # vs) \<and>
                    PStr k \<in> fst ` set tree) \<and>
                 (\<forall>k v. (k, v) \<in> set tree \<longrightarrow>
                    (\<exists>line \<in> set (splitlines out). \<exists>ks vs.
                       str_split line (effective_split (split p) (database p)) = Inr (ks # vs) \<and>
                       k = PStr ks \<and> v = PList (map PStr vs))))) \<and>
           ((\<forall>line \<in> set (splitlines out). \<exists>k vs.
               str_split line (effective_split (split p) (database p)) = Inr (k # vs)) \<longrightarrow>
            (\<exists>payload. fst (getent e p) = exit_json payload))) \<and>
         (rc = 2 \<and> \<not> fail_key p \<longrightarrow>
           fst (getent e p) =
              exit_json [(PStr ''results'',
                          PDict [(PStr ''collection'', PBool True),
                                 (PStr (''getent_'' @ database p),
                                  PDict [(pyopt (key p), PNone)])]),
                         (PStr ''msg'',
                          PStr ''One or more supplied key could not be found in the database.'')])"
proof -
  let ?sep = "effective_split (split p) (database p)"
  let ?lines = "splitlines out"
  have shape: "\<exists>tree. payload = [(PStr ''collection'', PBool True),
                                  (PStr (''getent_'' @ database p), PDict tree)] \<and>
      (\<forall>line \<in> set ?lines. \<exists>k vs. str_split line ?sep = Inr (k # vs) \<and>
          PStr k \<in> fst ` set tree) \<and>
      (\<forall>k v. (k, v) \<in> set tree \<longrightarrow>
          (\<exists>line \<in> set ?lines. \<exists>ks vs. str_split line ?sep = Inr (ks # vs) \<and>
             k = PStr ks \<and> v = PList (map PStr vs)))"
    if "rc = 0" and "fst (getent e p) = exit_json payload" for payload
  proof -
    from that assms obtain tree where tree: "parse_tree ?sep [] ?lines = Inr tree"
      and payload: "payload = results_of (''getent_'' @ database p) tree"
      by (auto simp: getent_completed dispatch_success split: sum.splits)
    have "\<forall>line \<in> set ?lines. \<exists>k vs. str_split line ?sep = Inr (k # vs) \<and>
          PStr k \<in> fst ` set tree"
      using parse_tree_keys [OF tree] by blast
    moreover have "\<forall>k v. (k, v) \<in> set tree \<longrightarrow>
          (\<exists>line \<in> set ?lines. \<exists>ks vs. str_split line ?sep = Inr (ks # vs) \<and>
             k = PStr ks \<and> v = PList (map PStr vs))"
      using parse_tree_entries [OF tree] by simp
    ultimately show ?thesis using payload by (simp add: results_of_def)
  qed
  have returns: "\<exists>payload. fst (getent e p) = exit_json payload"
    if "rc = 0" and "\<forall>line \<in> set ?lines. \<exists>k vs. str_split line ?sep = Inr (k # vs)"
  proof -
    from parse_tree_total [OF that(2)]
    obtain tree where "parse_tree ?sep [] ?lines = Inr tree" by blast
    with that(1) assms show ?thesis by (simp add: getent_success)
  qed
  have tolerant: "fst (getent e p) =
      exit_json [(PStr ''results'',
                  PDict [(PStr ''collection'', PBool True),
                         (PStr (''getent_'' @ database p), PDict [(pyopt (key p), PNone)])]),
                 (PStr ''msg'',
                  PStr ''One or more supplied key could not be found in the database.'')]"
    if "rc = 2" and "\<not> fail_key p"
    using that assms by (simp add: getent_completed dispatch_missing_key results_of_def)
  from shape returns tolerant show ?thesis by blast
qed

theorem result_shape_witness:
  "fst (getent (example_system (Some ''/usr/bin/getent'') (Completed 0 (''ssh 22/tcp'' @ [CHR 0x0A]) []))
          \<lparr>database = ''services'', key = Some ''ssh'', split = None, fail_key = False\<rparr>) =
     exit_json [(PStr ''collection'', PBool True),
                (PStr ''getent_services'', PDict [(PStr ''ssh'', PList [PStr ''22/tcp''])])] \<and>
   fst (getent (example_system (Some ''/usr/bin/getent'') (Completed 2 [] []))
          \<lparr>database = ''services'', key = Some ''http'', split = None, fail_key = False\<rparr>) =
     exit_json [(PStr ''results'',
                 PDict [(PStr ''collection'', PBool True),
                        (PStr ''getent_services'', PDict [(PStr ''http'', PNone)])]),
                (PStr ''msg'',
                 PStr ''One or more supplied key could not be found in the database.'')]"
  using
    result_shape
      [where e = "example_system (Some ''/usr/bin/getent'') (Completed 0 (''ssh 22/tcp'' @ [CHR 0x0A]) [])"
         and bin = "''/usr/bin/getent''"
         and p = "\<lparr>database = ''services'', key = Some ''ssh'', split = None, fail_key = False\<rparr>"
         and rc = 0 and out = "''ssh 22/tcp'' @ [CHR 0x0A]" and err = "[]"]
    result_shape
      [where e = "example_system (Some ''/usr/bin/getent'') (Completed 2 [] [])"
         and bin = "''/usr/bin/getent''"
         and p = "\<lparr>database = ''services'', key = Some ''http'', split = None, fail_key = False\<rparr>"
         and rc = 2 and out = "[]" and err = "[]"]
  by (simp add: getent_def get_bin_path_def Let_def example_system_def command_line_def
      effective_split_def colon_def dispatch_def getitem_def splitlines_def linebreak_def str_split_def isspace_def)

text \<open>
  Claim C5. With a separator \<open>s\<close> in force, exit code 0 always yields a result, and its
  parsing loses nothing and keeps the order: every line splits into a key and its fields
  whose join under \<open>s\<close> is the line again, cut at each occurrence of \<open>s\<close> found from the
  left (in a field before a cut \<open>s\<close> starts nowhere earlier than the cut, the last field
  holds no \<open>s\<close>, and no field holds a one-character separator), the key is in the
  dictionary, every entry of the
  dictionary is the key and the fields of a line, and when the first fields are distinct
  the dictionary is, entry by entry and in order, the list of the lines. Output made of
  newline-terminated lines is read as exactly those lines: the final newline starts no
  further, blank line. The instances that follow the theorem are the output
  \<^verbatim>\<open>root:x:0:0:root:/root:/bin/bash\<close> and a newline with the separator \<^verbatim>\<open>:\<close>, a line
  with an empty field, and a line cut at a two-character separator.
\<close>

theorem parsing_lossless:
  assumes "lookup_path e ''getent'' = Some bin"
    and "run_command e (command_line bin p) = Completed 0 out err"
    and "effective_split (split p) (database p) = Some s"
    and "s \<noteq> []"
  shows "\<exists>tree.
     getent e p =
       (exit_json [(PStr ''collection'', PBool True),
                   (PStr (''getent_'' @ database p), PDict tree)],
        [command_line bin p]) \<and>
     (\<forall>line \<in> set (splitlines out). \<exists>k vs.
        split_sep s [] line = k # vs \<and> join s (k # vs) = line \<and>
        (\<forall>f \<in> set (butlast (k # vs)). \<forall>i < length f.
           take (length s) (drop i (f @ s)) \<noteq> s) \<and>
        (\<forall>i. take (length s) (drop i (last (k # vs))) \<noteq> s) \<and>
        (\<forall>c. s = [c] \<longrightarrow> (\<forall>f \<in> set (k # vs). c \<notin> set f)) \<and>
        PStr k \<in> fst ` set tree) \<and>
     (\<forall>k v. (k, v) \<in> set tree \<longrightarrow>
        (\<exists>line \<in> set (splitlines out). \<exists>ks vs.
           split_sep s [] line = ks # vs \<and> k = PStr ks \<and> v = PList (map PStr vs))) \<and>
     (distinct (map (\<lambda>line. hd (split_sep s [] line)) (splitlines out)) \<longrightarrow>
        tree = map (\<lambda>line. (PStr (hd (split_sep s [] line)),
                             PList (map PStr (tl (split_sep s [] line))))) (splitlines out)) \<and>
     (\<forall>ls. out = concat (map (\<lambda>l. l @ [CHR 0x0A]) ls) \<longrightarrow>
        (\<forall>l \<in> set ls. \<forall>c \<in> set l. \<not> linebreak c) \<longrightarrow> splitlines out = ls) \<and>
     (\<forall>body. out = body @ [CHR 0x0A] \<longrightarrow> body \<noteq> [] \<longrightarrow> \<not> linebreak (last body) \<longrightarrow>
        splitlines out = splitlines body)"
proof -
  let ?sep = "effective_split (split p) (database p)"
  have "\<forall>line \<in> set (splitlines out). \<exists>k vs. str_split line (Some s) = Inr (k # vs)"
    using assms(4) by (simp add: str_split_Some_record)
  from parse_tree_total [OF this]
  obtain tree where tree: "parse_tree (Some s) [] (splitlines out) = Inr tree" by blast
  have run: "getent e p =
       (exit_json [(PStr ''collection'', PBool True),
                   (PStr (''getent_'' @ database p), PDict tree)],
        [command_line bin p])"
    using assms(1,2) tree by (simp add: getent_success assms(3))
  have lines: "\<exists>k vs. split_sep s [] line = k # vs \<and> join s (k # vs) = line \<and>
      (\<forall>f \<in> set (butlast (k # vs)). \<forall>i < length f.
         take (length s) (drop i (f @ s)) \<noteq> s) \<and>
      (\<forall>i. take (length s) (drop i (last (k # vs))) \<noteq> s) \<and>
      (\<forall>c. s = [c] \<longrightarrow> (\<forall>f \<in> set (k # vs). c \<notin> set f)) \<and>
      PStr k \<in> fst ` set tree" if "line \<in> set (splitlines out)" for line
  proof -
    from parse_tree_keys [OF tree that]
    obtain k vs where "str_split line (Some s) = Inr (k # vs)" and "PStr k \<in> fst ` set tree"
      by blast
    then have kv: "split_sep s [] line = k # vs"
      using assms(4) by (simp add: str_split_Some)
    have "join s (split_sep s [] line) = line"
      using join_split_sep [OF assms(4), of "[]" line] by simp
    then have joined: "join s (k # vs) = line"
      unfolding kv .
    have cuts:
      "(\<forall>f \<in> set (butlast (k # vs)). \<forall>i < length f.
          take (length s) (drop i (f @ s)) \<noteq> s) \<and>
       (\<forall>i. take (length s) (drop i (last (k # vs))) \<noteq> s) \<and>
       (\<forall>c. s = [c] \<longrightarrow> (\<forall>f \<in> set (k # vs). c \<notin> set f))"
      using split_sep_cuts [OF assms(4), of line] unfolding kv .
    from kv joined cuts \<open>PStr k \<in> fst ` set tree\<close> show ?thesis by blast
  qed
  have entries: "\<exists>line \<in> set (splitlines out). \<exists>ks vs.
      split_sep s [] line = ks # vs \<and> k = PStr ks \<and> v = PList (map PStr vs)"
    if "(k, v) \<in> set tree" for k v
    using parse_tree_entries [OF tree that] assms(4) by (simp add: str_split_Some)
  have exact: "tree = map (\<lambda>line. (PStr (hd (split_sep s [] line)),
                             PList (map PStr (tl (split_sep s [] line))))) (splitlines out)"
    if "distinct (map (\<lambda>line. hd (split_sep s [] line)) (splitlines out))"
    using parse_tree_distinct_keys [OF assms(4) that, of "[]"] tree
    by (simp add: entry_def)
  have trailing: "splitlines out = splitlines body"
    if "out = body @ [CHR 0x0A]" "body \<noteq> []" "\<not> linebreak (last body)" for body
    using that by (simp add: splitlines_trailing)
  have terminated: "splitlines out = ls"
    if "out = concat (map (\<lambda>l. l @ [CHR 0x0A]) ls)"
      "\<forall>l \<in> set ls. \<forall>c \<in> set l. \<not> linebreak c" for ls
    using that by (simp add: splitlines_terminated)
  from run lines entries exact terminated trailing show ?thesis by blast
qed

theorem parsing_lossless_witness:
  "getent (example_system (Some ''/usr/bin/getent'')
             (Completed 0 (''root:x:0:0:root:/root:/bin/bash'' @ [CHR 0x0A]) []))
          \<lparr>database = ''passwd'', key = Some ''root'', split = Some '':'', fail_key = True\<rparr> =
     (exit_json [(PStr ''collection'', PBool True),
                 (PStr ''getent_passwd'',
                  PDict [(PStr ''root'',
                          PList [PStr ''x'', PStr ''0'', PStr ''0'', PStr ''root'', PStr ''/root'',
                                 PStr ''/bin/bash''])])],
      [[''/usr/bin/getent'', ''passwd'', ''root'']]) \<and>
   getent (example_system (Some ''/usr/bin/getent'')
             (Completed 0 (''bin:x:2:2::/bin:'' @ [CHR 0x0A] @ '':only'' @ [CHR 0x0A]) []))
          \<lparr>database = ''passwd'', key = None, split = None, fail_key = True\<rparr> =
     (exit_json [(PStr ''collection'', PBool True),
                 (PStr ''getent_passwd'',
                  PDict [(PStr ''bin'',
                          PList [PStr ''x'', PStr ''2'', PStr ''2'', PStr [], PStr ''/bin'',
                                 PStr []]),
                         (PStr [], PList [PStr ''only''])])],
      [[''/usr/bin/getent'', ''passwd'']]) \<and>
   getent (example_system (Some ''/usr/bin/getent'')
             (Completed 0 (''a--b---c-'' @ [CHR 0x0A]) []))
          \<lparr>database = ''hosts'', key = None, split = Some ''--'', fail_key = True\<rparr> =
     (exit_json [(PStr ''collection'', PBool True),
                 (PStr ''getent_hosts'',
                  PDict [(PStr ''a'', PList [PStr ''b'', PStr ''-c-''])])],
      [[''/usr/bin/getent'', ''hosts'']])"
  using
    parsing_lossless
      [where e = "example_system (Some ''/usr/bin/getent'')
                    (Completed 0 (''root:x:0:0:root:/root:/bin/bash'' @ [CHR 0x0A]) [])"
         and bin = "''/usr/bin/getent''"
         and p = "\<lparr>database = ''passwd'', key = Some ''root'', split = Some '':'', fail_key = True\<rparr>"
         and out = "''root:x:0:0:root:/root:/bin/bash'' @ [CHR 0x0A]" and err = "[]"
         and s = "'':''"]
    parsing_lossless
      [where e = "example_system (Some ''/usr/bin/getent'')
                    (Completed 0 (''bin:x:2:2::/bin:'' @ [CHR 0x0A] @ '':only'' @ [CHR 0x0A]) [])"
         and bin = "''/usr/bin/getent''"
         and p = "\<lparr>database = ''passwd'', key = None, split = None, fail_key = True\<rparr>"
         and out = "''bin:x:2:2::/bin:'' @ [CHR 0x0A] @ '':only'' @ [CHR 0x0A]" and err = "[]"
         and s = "'':''"]
    parsing_lossless
      [where e = "example_system (Some ''/usr/bin/getent'')
                    (Completed 0 (''a--b---c-'' @ [CHR 0x0A]) [])"
         and bin = "''/usr/bin/getent''"
         and p = "\<lparr>database = ''hosts'', key = None, split = Some ''--'', fail_key = True\<rparr>"
         and out = "''a--b---c-'' @ [CHR 0x0A]" and err = "[]"
         and s = "''--''"]
  by (simp add: getent_def get_bin_path_def Let_def example_system_def command_line_def
      effective_split_def colon_def dispatch_def getitem_def splitlines_def linebreak_def
      str_split_def)

text \<open>
  Claim C9. On exit code 0, when several lines have the same first field, the dictionary
  holds exactly one entry under that key, and its value is the fields of the last such
  line: \<open>l\<close> is a line with first field \<open>k\<close>, no line after it has that first field, any
  number of lines before it may.
\<close>

theorem last_occurrence_wins:
  assumes "lookup_path e ''getent'' = Some bin"
    and "run_command e (command_line bin p) = Completed 0 out err"
    and "\<forall>line \<in> set (splitlines out). \<exists>k' vs'.
           str_split line (effective_split (split p) (database p)) = Inr (k' # vs')"
    and "splitlines out = pre @ l # post"
    and "str_split l (effective_split (split p) (database p)) = Inr (k # vs)"
    and "\<forall>line \<in> set post. \<forall>k' vs'.
           str_split line (effective_split (split p) (database p)) = Inr (k' # vs') \<longrightarrow> k' \<noteq> k"
  shows "\<exists>tree.
     getent e p =
       (exit_json [(PStr ''collection'', PBool True),
                   (PStr (''getent_'' @ database p), PDict tree)],
        [command_line bin p]) \<and>
     [kv \<leftarrow> tree. fst kv = PStr k] = [(PStr k, PList (map PStr vs))]"
proof -
  let ?sep = "effective_split (split p) (database p)"
  from parse_tree_total [OF assms(3)]
  obtain tree where tree: "parse_tree ?sep [] (splitlines out) = Inr tree" by blast
  have "distinct (map fst tree)"
    using parse_tree_distinct [OF tree] by simp
  moreover have "map_of tree (PStr k) = Some (PList (map PStr vs))"
    using parse_tree_last_wins [of ?sep "[]" pre l post tree k vs] tree assms(4,5,6) by simp
  ultimately have "[kv \<leftarrow> tree. fst kv = PStr k] = [(PStr k, PList (map PStr vs))]"
    by (rule only_entry)
  with getent_success [OF assms(1,2) tree] show ?thesis by blast
qed

theorem last_occurrence_wins_witness:
  "getent (example_system (Some ''/usr/bin/getent'')
             (Completed 0 (''root:x:0'' @ [CHR 0x0A] @ ''bin:x:1'' @ [CHR 0x0A] @ ''root:y:5'' @ [CHR 0x0A]) []))
          \<lparr>database = ''passwd'', key = None, split = None, fail_key = True\<rparr> =
     (exit_json [(PStr ''collection'', PBool True),
                 (PStr ''getent_passwd'',
                  PDict [(PStr ''root'', PList [PStr ''y'', PStr ''5'']),
                         (PStr ''bin'', PList [PStr ''x'', PStr ''1''])])],
      [[''/usr/bin/getent'', ''passwd'']])"
  using
    last_occurrence_wins
      [where e = "example_system (Some ''/usr/bin/getent'')
             (Completed 0 (''root:x:0'' @ [CHR 0x0A] @ ''bin:x:1'' @ [CHR 0x0A] @ ''root:y:5'' @ [CHR 0x0A]) [])"
         and bin = "''/usr/bin/getent''"
         and p = "\<lparr>database = ''passwd'', key = None, split = None, fail_key = True\<rparr>"
         and out = "''root:x:0'' @ [CHR 0x0A] @ ''bin:x:1'' @ [CHR 0x0A] @ ''root:y:5'' @ [CHR 0x0A]"
         and err = "[]" and pre = "[''root:x:0'', ''bin:x:1'']" and l = "''root:y:5''"
         and post = "[]" and k = "''root''" and vs = "[''y'', ''5'']"]
  by (simp add: getent_def get_bin_path_def Let_def example_system_def command_line_def
      effective_split_def colon_def dispatch_def getitem_def splitlines_def linebreak_def str_split_def)

subsection \<open>The default separator\<close>

text \<open>
  Claim C4. With no \<open>split\<close> parameter, the separator in force is \<^verbatim>\<open>:\<close> exactly when the
  database is one of \<^verbatim>\<open>passwd\<close>, \<^verbatim>\<open>shadow\<close>, \<^verbatim>\<open>group\<close> and \<^verbatim>\<open>gshadow\<close>; for every other
  database there is none, and each line is cut at runs of whitespace.
\<close>

theorem default_separator:
  assumes "lookup_path e ''getent'' = Some bin"
    and "run_command e (command_line bin p) = Completed rc out err"
    and "split p = None"
  shows "(effective_split (split p) (database p) = Some '':'' \<longleftrightarrow>
            database p \<in> {''passwd'', ''shadow'', ''group'', ''gshadow''}) \<and>
         (database p \<notin> {''passwd'', ''shadow'', ''group'', ''gshadow''} \<longrightarrow>
            effective_split (split p) (database p) = None \<and>
            (\<forall>line. str_split line (effective_split (split p) (database p)) =
                      Inr (split_whitespace [] line))) \<and>
         getent e p =
           (dispatch p (if database p \<in> {''passwd'', ''shadow'', ''group'', ''gshadow''}
                        then Some '':'' else None) rc out,
            [command_line bin p])"
  using assms by (simp add: getent_completed effective_split_def colon_def str_split_def)

theorem default_separator_witness:
  "effective_split None ''passwd'' = Some '':'' \<and>
   effective_split None ''hosts'' = None \<and>
   getent (example_system (Some ''/usr/bin/getent'')
             (Completed 0 (''::1 localhost ip6-localhost'' @ [CHR 0x0A]) []))
          \<lparr>database = ''hosts'', key = None, split = None, fail_key = True\<rparr> =
     (exit_json [(PStr ''collection'', PBool True),
                 (PStr ''getent_hosts'',
                  PDict [(PStr ''::1'', PList [PStr ''localhost'', PStr ''ip6-localhost''])])],
      [[''/usr/bin/getent'', ''hosts'']]) \<and>
   getent (example_system (Some ''/usr/bin/getent'') (Completed 0 (''root:x:0'' @ [CHR 0x0A]) []))
          \<lparr>database = ''passwd'', key = None, split = None, fail_key = True\<rparr> =
     (exit_json [(PStr ''collection'', PBool True),
                 (PStr ''getent_passwd'', PDict [(PStr ''root'', PList [PStr ''x'', PStr ''0''])])],
      [[''/usr/bin/getent'', ''passwd'']])"
  using
    default_separator
      [where e = "example_system (Some ''/usr/bin/getent'')
                    (Completed 0 (''::1 localhost ip6-localhost'' @ [CHR 0x0A]) [])"
         and bin = "''/usr/bin/getent''"
         and p = "\<lparr>database = ''hosts'', key = None, split = None, fail_key = True\<rparr>"
         and rc = 0 and out = "''::1 localhost ip6-localhost'' @ [CHR 0x0A]" and err = "[]"]
    default_separator
      [where e = "example_system (Some ''/usr/bin/getent'') (Completed 0 (''root:x:0'' @ [CHR 0x0A]) [])"
         and bin = "''/usr/bin/getent''"
         and p = "\<lparr>database = ''passwd'', key = None, split = None, fail_key = True\<rparr>"
         and rc = 0 and out = "''root:x:0'' @ [CHR 0x0A]" and err = "[]"]
  by (simp add: getent_def get_bin_path_def Let_def example_system_def command_line_def
      effective_split_def colon_def dispatch_def getitem_def splitlines_def linebreak_def str_split_def isspace_def)

end
